theory Spec2Isabelle
  imports Complex_Main "HOL-Library.Multiset"
begin

section \<open>Wing spar quick sizer: the physics functions of \<open>spar_streamlit.py\<close>\<close>

text \<open>
  Number model. The program computes with Python floats. They are modelled here as
  \<^typ>\<open>real\<close>: every arithmetic operation is exact, the literal \<open>9.81\<close> is the
  rational 981/100 and \<open>math.pi\<close> is the constant \<^term>\<open>pi\<close>. Rounding and the values
  inf and nan are outside the model. What is kept of Python's float arithmetic are its
  two error paths. The division \<open>x / y\<close> of two floats raises \<open>ZeroDivisionError\<close>
  when \<open>y\<close> is zero, so every division of the source is guarded in the model. The power
  \<open>x ** 4\<close> raises \<open>OverflowError\<close> when its result is too large for a float, and is
  \<open>0.0\<close> when its result is too small for one (\<open>float_pow4\<close> below). The errors are
  values of the result type. The operations \<open>*\<close>, \<open>/\<close> and \<open>-\<close> never raise on
  overflow (they return inf), and are exact in the model.
\<close>

datatype py_error =
  ZeroDivisionError   \<comment> \<open>raised by a float division by zero, caught nowhere\<close>
| OverflowError       \<comment> \<open>raised by a float power out of range, caught nowhere\<close>
| NoValidTubes        \<comment> \<open>\<open>st.error("No valid tubes! ...")\<close> followed by \<open>st.stop()\<close>\<close>

definition g_default :: real where
  "g_default = 981 / 100"

text \<open>
  \<^verbatim>\<open>
  def root_bending_moment(mass_kg, span_m, load_factor, g=9.81):
      W = mass_kg * g
      L = W * load_factor
      M = L * span_m / 8.0  # uniform lift assumption
      return W, L, M, M * 1000  # return N.m and N.mm versions
  \<close>
  The default value of \<open>g\<close> is \<^term>\<open>g_default\<close>; both callers in the source use it.
\<close>

definition root_bending_moment :: "real \<Rightarrow> real \<Rightarrow> real \<Rightarrow> real \<Rightarrow> real \<times> real \<times> real \<times> real" where
  "root_bending_moment mass_kg span_m load_factor g =
     (let W = mass_kg * g;
          L = W * load_factor;
          M = L * span_m / 8
      in (W, L, M, M * 1000))"

text \<open>
  The power \<open>x ** 4\<close> of a float. The largest float is \<open>float_max\<close>, that is
  \<open>(2 - 2^-52) * 2^1023\<close>, and the least positive float is \<open>2^-1074\<close>. For a float
  \<open>x\<close> Python raises \<open>OverflowError\<close> exactly when \<open>x^4\<close> exceeds \<open>float_max\<close>
  (that is, from \<open>\<bar>x\<bar> = 2^256\<close> on), and returns \<open>0.0\<close> exactly when \<open>x^4\<close> is at most
  \<open>2^-1075\<close>, half the least positive float. In between the result is \<open>x^4\<close>, rounded
  (here: exact).
\<close>

definition float_max :: real where
  "float_max = (2 ^ 53 - 1) * 2 ^ 971"

definition float_pow4 :: "real \<Rightarrow> py_error + real" where
  "float_pow4 x =
     (if float_max < x ^ 4 then Inl OverflowError
      else if x ^ 4 \<le> 1 / 2 ^ 1075 then Inr 0
      else Inr (x ^ 4))"

text \<open>
  \<^verbatim>\<open>
  def tube_section(D, d):
      I = math.pi / 64 * (D**4 - d**4)
      c = D / 2
      S = I / c
      return I, S
  \<close>
  \<open>D**4\<close> is evaluated before \<open>d**4\<close>, and both before the division; \<open>I / c\<close>
  raises when \<open>c\<close> is zero.
\<close>

definition tube_section :: "real \<Rightarrow> real \<Rightarrow> py_error + real \<times> real" where
  "tube_section D d =
     (case float_pow4 D of
        Inl e \<Rightarrow> Inl e
      | Inr D4 \<Rightarrow>
          (case float_pow4 d of
             Inl e \<Rightarrow> Inl e
           | Inr d4 \<Rightarrow>
               let I = pi / 64 * (D4 - d4);
                   c = D / 2
               in if c = 0 then Inl ZeroDivisionError
                  else let S = I / c in Inr (I, S)))"

text \<open>
  \<^verbatim>\<open>
  def compute_tube(mass, span, g_load, D, d, strength):
      W, L, M, Mmm = root_bending_moment(mass, span, g_load)
      I, S = tube_section(D, d)
      stress = Mmm / S       # MPa
      SF = strength / stress
      return stress, SF
  \<close>
  Three divisions can raise: the one inside \<open>tube_section\<close>, \<open>Mmm / S\<close> and
  \<open>strength / stress\<close>; so can the two powers inside \<open>tube_section\<close>. The function has
  no check of its own on the geometry.
  (The parameter \<open>span\<close> is written \<open>span_m\<close>: \<open>span\<close> is a constant of HOL.)
\<close>

definition compute_tube :: "real \<Rightarrow> real \<Rightarrow> real \<Rightarrow> real \<Rightarrow> real \<Rightarrow> real \<Rightarrow> py_error + real \<times> real" where
  "compute_tube mass span_m g_load D d strength =
     (case root_bending_moment mass span_m g_load g_default of
        (W, L, M, Mmm) \<Rightarrow>
          (case tube_section D d of
             Inl e \<Rightarrow> Inl e
           | Inr (I, S) \<Rightarrow>
               if S = 0 then Inl ZeroDivisionError
               else let stress = Mmm / S in
                 if stress = 0 then Inl ZeroDivisionError
                 else let SF = strength / stress in Inr (stress, SF)))"

section \<open>Strings: the methods of \<open>str\<close> used by the parser\<close>

text \<open>
  A Python \<open>str\<close> is modelled as a \<^typ>\<open>string\<close>, one \<^typ>\<open>char\<close> per character, which
  covers ASCII text. \<open>str.isspace\<close> holds on the ASCII characters 9 to 13, 28 to 31
  and 32.
\<close>

definition is_space :: "char \<Rightarrow> bool" where
  "is_space c \<longleftrightarrow> c \<in> set (map char_of [9, 10, 11, 12, 13, 28, 29, 30, 31, 32 :: nat])"

text \<open>\<open>s.strip()\<close>: leading and trailing whitespace removed.\<close>

definition str_strip :: "string \<Rightarrow> string" where
  "str_strip s = rev (dropWhile is_space (rev (dropWhile is_space s)))"

text \<open>
  \<open>s.split(sep)\<close> for a separator of one character: the pieces between the
  occurrences of \<open>sep\<close>, empty pieces kept, so the result has one element more than
  there are separators (\<open>"".split(",") == [""]\<close>).
\<close>

fun str_split :: "char \<Rightarrow> string \<Rightarrow> string list" where
  "str_split sep [] = [[]]"
| "str_split sep (c # cs) =
     (if c = sep then [] # str_split sep cs
      else (case str_split sep cs of
              [] \<Rightarrow> [[c]]
            | w # ws \<Rightarrow> (c # w) # ws))"

text \<open>\<open>line.replace(" ", "")\<close>: every space character removed.\<close>

definition remove_spaces :: "string \<Rightarrow> string" where
  "remove_spaces line = filter (\<lambda>c. c \<noteq> CHR '' '') line"

section \<open>Candidate parsing\<close>

text \<open>
  \<^verbatim>\<open>
  def parse_candidates(text):
      tubes = []
      lines = text.strip().split("\n")
      for line in lines:
          parts = line.replace(" ", "").split(",")
          if len(parts) == 2:
              try:
                  D = float(parts[0])
                  d = float(parts[1])
                  if d < D:
                      tubes.append((D, d))
              except:
                  pass
      return tubes
  \<close>
  The built-in \<open>float\<close> is a parameter \<open>to_float\<close> of the model: \<open>None\<close> is its
  \<open>ValueError\<close>, which the bare \<open>except\<close> swallows, so the line is skipped.
  \<open>parse_line\<close> is the body of the loop and \<open>parse_loop\<close> the loop, with the list
  \<open>tubes\<close> as its state.
\<close>

type_synonym tube = "real \<times> real"

definition parse_line :: "(string \<Rightarrow> real option) \<Rightarrow> string \<Rightarrow> tube list \<Rightarrow> tube list" where
  "parse_line to_float line tubes =
     (let parts = str_split CHR '','' (remove_spaces line) in
      if length parts = 2 then
        (case to_float (parts ! 0) of
           None \<Rightarrow> tubes
         | Some D \<Rightarrow>
             (case to_float (parts ! 1) of
                None \<Rightarrow> tubes
              | Some d \<Rightarrow> if d < D then tubes @ [(D, d)] else tubes))
      else tubes)"

fun parse_loop :: "(string \<Rightarrow> real option) \<Rightarrow> string list \<Rightarrow> tube list \<Rightarrow> tube list" where
  "parse_loop to_float [] tubes = tubes"
| "parse_loop to_float (line # lines) tubes =
     parse_loop to_float lines (parse_line to_float line tubes)"

definition text_lines :: "string \<Rightarrow> string list" where
  "text_lines text = str_split (CHR 0x0A) (str_strip text)"

definition parse_candidates :: "(string \<Rightarrow> real option) \<Rightarrow> string \<Rightarrow> tube list" where
  "parse_candidates to_float text = parse_loop to_float (text_lines text) []"

text \<open>
  A concrete \<open>to_float\<close> for running the parser: Python's \<open>float\<close> on plain decimal
  literals, that is, surrounding whitespace, an optional sign, digits, and optionally a
  point followed by digits. On these strings \<open>float\<close> returns the number written
  (here exactly, in Python rounded to a double). The other forms \<open>float\<close> accepts
  (exponents, underscores, a missing integer or fraction part, \<open>inf\<close>, \<open>nan\<close>) are
  not covered: \<open>float_lit\<close> is used on none of them below.
\<close>

definition is_digit :: "char \<Rightarrow> bool" where
  "is_digit c \<longleftrightarrow> (48::nat) \<le> of_char c \<and> of_char c \<le> (57::nat)"

definition digits_value :: "string \<Rightarrow> nat" where
  "digits_value ds = foldl (\<lambda>acc c. 10 * acc + (of_char c - 48)) 0 ds"

definition unsigned_lit :: "string \<Rightarrow> real option" where
  "unsigned_lit s =
     (case str_split CHR ''.'' s of
        [ip] \<Rightarrow>
          if ip \<noteq> [] \<and> list_all is_digit ip then Some (real (digits_value ip)) else None
      | [ip, fp] \<Rightarrow>
          if ip \<noteq> [] \<and> fp \<noteq> [] \<and> list_all is_digit ip \<and> list_all is_digit fp
          then Some (real (digits_value (ip @ fp)) / 10 ^ length fp)
          else None
      | _ \<Rightarrow> None)"

definition float_lit :: "string \<Rightarrow> real option" where
  "float_lit s =
     (case str_strip s of
        [] \<Rightarrow> None
      | c # cs \<Rightarrow>
          if c = CHR ''-'' then map_option uminus (unsigned_lit cs)
          else if c = CHR ''+'' then unsigned_lit cs
          else unsigned_lit (c # cs))"

section \<open>The computation run by the Compute button\<close>

text \<open>
  One row of the results table: the dict appended in the loop over the tubes, with the
  columns \<open>Outer (mm)\<close>, \<open>Inner (mm)\<close>, \<open>Stress (MPa)\<close>, \<open>Safety Factor\<close> and
  \<open>Pass\<close>.
\<close>

record row =
  Outer :: real
  Inner :: real
  Stress :: real
  Safety_Factor :: real
  Pass :: bool

text \<open>
  \<^verbatim>\<open>
  results = []
  for D, d in tubes:
      stress, SF = compute_tube(mass, span, g_load, D, d, strength)
      results.append({"Outer (mm)": D, "Inner (mm)": d, "Stress (MPa)": stress,
                      "Safety Factor": SF, "Pass": SF >= target_SF})
  \<close>
  An exception of \<open>compute_tube\<close> is caught nowhere: it ends the loop and the run.
\<close>

fun results_loop ::
  "real \<Rightarrow> real \<Rightarrow> real \<Rightarrow> real \<Rightarrow> real \<Rightarrow> tube list \<Rightarrow> row list \<Rightarrow> py_error + row list" where
  "results_loop mass span_m g_load strength target_SF [] results = Inr results"
| "results_loop mass span_m g_load strength target_SF ((D, d) # tubes) results =
     (case compute_tube mass span_m g_load D d strength of
        Inl e \<Rightarrow> Inl e
      | Inr (stress, SF) \<Rightarrow>
          results_loop mass span_m g_load strength target_SF tubes
            (results @ [\<lparr>Outer = D, Inner = d, Stress = stress, Safety_Factor = SF,
                         Pass = (SF \<ge> target_SF)\<rparr>]))"

text \<open>
  \<open>pd.DataFrame(results).sort_values("Outer (mm)")\<close>. The sort is pandas', called
  with its default \<open>kind='quicksort'\<close>, and is a parameter \<open>sort_values\<close> of the
  model. What pandas documents of that call is \<open>sort_values_spec\<close>: the rows of the
  result are the rows of the frame, in ascending order of the column. Nothing is assumed
  on the order of rows with equal keys, which the source does not determine.
\<close>

definition sort_values_spec :: "(row \<Rightarrow> real) \<Rightarrow> row list \<Rightarrow> row list \<Rightarrow> bool" where
  "sort_values_spec key rows df \<longleftrightarrow> mset df = mset rows \<and> sorted (map key df)"

text \<open>
  \<^verbatim>\<open>
  good = df[df["Pass"] == True]
  if not good.empty:
      best = good.iloc[0]
      st.success(f"Recommended: ...")
  else:
      st.error("No tube meets the target safety factor!")
  \<close>
  The recommendation is the row \<open>best\<close>, or \<open>None\<close> on the \<open>else\<close> branch.
\<close>

definition recommend :: "row list \<Rightarrow> row option" where
  "recommend df =
     (let good = filter (\<lambda>r. Pass r = True) df in
      case good of [] \<Rightarrow> None | best # _ \<Rightarrow> Some best)"

record inputs =
  mass :: real
  wingspan :: real
  g_load :: real
  strength :: real
  target_SF :: real
  tube_text :: string

record report =
  weight :: real
  lift :: real
  root_moment :: real
  df :: "row list"
  recommendation :: "row option"

text \<open>
  The block under \<open>if run_btn:\<close>, from the sidebar values to what is displayed: the
  three metrics of the bending summary, the sorted table and the recommendation.
  With no tube parsed the script reports an error and stops before anything is computed.
  (The plot shows the table again and is left out.)
\<close>

definition run ::
  "((row \<Rightarrow> real) \<Rightarrow> row list \<Rightarrow> row list) \<Rightarrow> (string \<Rightarrow> real option) \<Rightarrow> inputs \<Rightarrow> py_error + report" where
  "run sort_values to_float inp =
     (let tubes = parse_candidates to_float (tube_text inp) in
      if tubes = [] then Inl NoValidTubes
      else
        (case root_bending_moment (mass inp) (wingspan inp) (g_load inp) g_default of
           (W, L, M, Mmm) \<Rightarrow>
             (case results_loop (mass inp) (wingspan inp) (g_load inp) (strength inp)
                     (target_SF inp) tubes [] of
                Inl e \<Rightarrow> Inl e
              | Inr results \<Rightarrow>
                  let df = sort_values Outer results in
                  Inr \<lparr>weight = W, lift = L, root_moment = M, df = df,
                       recommendation = recommend df\<rparr>)))"

text \<open>
  A sort that meets \<open>sort_values_spec\<close>, for running the model: the insertion sort of
  the library.
\<close>

definition sort_values_stable :: "(row \<Rightarrow> real) \<Rightarrow> row list \<Rightarrow> row list" where
  "sort_values_stable key rows = sort_key key rows"

text \<open>The default contents of the text area and of the sidebar.\<close>

definition text_default :: string where
  "text_default = ''8,6\<newline>10,8\<newline>12,8\<newline>14,10\<newline>16,12\<newline>18,14''"

definition default_inputs :: inputs where
  "default_inputs =
     \<lparr>mass = 5, wingspan = 2, g_load = 3, strength = 600, target_SF = 2,
      tube_text = text_default\<rparr>"

text \<open>
  Two notions used to state the properties of the table: the geometry a row was computed
  from, and that a row holds what \<open>compute_tube\<close> returned for its geometry, with the
  flag \<open>Pass\<close> set as the loop sets it.
\<close>

definition row_tube :: "row \<Rightarrow> tube" where
  "row_tube r = (Outer r, Inner r)"

definition evaluated :: "real \<Rightarrow> real \<Rightarrow> real \<Rightarrow> real \<Rightarrow> real \<Rightarrow> row \<Rightarrow> bool" where
  "evaluated m s n allow tsf r \<longleftrightarrow>
     Pass r = (Safety_Factor r \<ge> tsf) \<and>
     compute_tube m s n (Outer r) (Inner r) allow = Inr (Stress r, Safety_Factor r)"

text \<open>
  The range of the floats. A float operation agrees with the exact operation, up to
  rounding, when its exact result has a magnitude between the least normal
  float \<open>float_min\<close>, that is \<open>2^-1022\<close>, and \<open>float_max\<close>. The three predicates say
  that every operation of \<open>root_bending_moment\<close>, of \<open>tube_section\<close> and of
  \<open>compute_tube\<close> has its exact result in that range: nothing overflows and nothing
  underflows.
\<close>

definition float_min :: real where
  "float_min = 1 / 2 ^ 1022"

definition float_normal :: "real \<Rightarrow> bool" where
  "float_normal x \<longleftrightarrow> float_min \<le> \<bar>x\<bar> \<and> \<bar>x\<bar> \<le> float_max"

definition load_in_range :: "real \<Rightarrow> real \<Rightarrow> real \<Rightarrow> bool" where
  "load_in_range m s n \<longleftrightarrow>
     float_normal (m * g_default) \<and> float_normal (m * g_default * n) \<and>
     float_normal (m * g_default * n * s) \<and> float_normal (m * g_default * n * s / 8) \<and>
     float_normal (m * g_default * n * s / 8 * 1000)"

definition section_in_range :: "real \<Rightarrow> real \<Rightarrow> bool" where
  "section_in_range D d \<longleftrightarrow>
     float_normal (D ^ 4) \<and> float_normal (d ^ 4) \<and> float_normal (D ^ 4 - d ^ 4) \<and>
     float_normal (pi / 64 * (D ^ 4 - d ^ 4)) \<and> float_normal (D / 2) \<and>
     float_normal (pi / 64 * (D ^ 4 - d ^ 4) / (D / 2))"

definition tube_in_range :: "real \<Rightarrow> real \<Rightarrow> real \<Rightarrow> real \<Rightarrow> real \<Rightarrow> real \<Rightarrow> bool" where
  "tube_in_range m s n D d allow \<longleftrightarrow>
     load_in_range m s n \<and> section_in_range D d \<and>
     float_normal
       (m * g_default * n * s / 8 * 1000 / (pi / 64 * (D ^ 4 - d ^ 4) / (D / 2))) \<and>
     float_normal
       (allow / (m * g_default * n * s / 8 * 1000 / (pi / 64 * (D ^ 4 - d ^ 4) / (D / 2))))"

section \<open>Auxiliary facts about the section modulus and the evaluation\<close>

text \<open>The power is exact on the range of the floats, and on the small numbers used below.\<close>

lemma float_pow4_exact:
  assumes "1 / 2 ^ 1075 < x ^ 4" and "x ^ 4 \<le> float_max"
  shows "float_pow4 x = Inr (x ^ 4)"
  using assms by (simp add: float_pow4_def)

lemma float_normal_pow4:
  assumes "float_normal (x ^ 4)"
  shows "float_pow4 x = Inr (x ^ 4)"
proof -
  have "(1::real) / 2 ^ 1075 < 1 / 2 ^ 1022" by simp
  moreover have "0 \<le> x ^ 4" by simp
  ultimately have "1 / 2 ^ 1075 < x ^ 4" and "x ^ 4 \<le> float_max"
    using assms unfolding float_normal_def float_min_def by linarith+
  then show ?thesis by (rule float_pow4_exact)
qed

lemma float_range_bounds: "(10::real) ^ 40 \<le> float_max" "(1::real) / 2 ^ 1075 < 1 / 10 ^ 40"
  by (simp_all add: float_max_def)

lemma float_pow4_small:
  assumes "1 / 10 ^ 10 \<le> \<bar>x\<bar>" and "\<bar>x\<bar> \<le> 10 ^ 10"
  shows "float_pow4 x = Inr (x ^ 4)"
proof -
  have e: "x ^ 4 = \<bar>x\<bar> ^ 4" by simp
  have "\<bar>x\<bar> ^ 4 \<le> (10 ^ 10) ^ 4"
    using assms(2) by (intro power_mono) simp_all
  then have up: "x ^ 4 \<le> 10 ^ 40" unfolding e by simp
  have "(1 / 10 ^ 10) ^ 4 \<le> \<bar>x\<bar> ^ 4"
    using assms(1) by (intro power_mono) simp_all
  then have lo: "1 / 10 ^ 40 \<le> x ^ 4" unfolding e by (simp add: power_divide)
  show ?thesis
    using up lo float_range_bounds by (intro float_pow4_exact) linarith+
qed


lemma pow4_strict_mono: "0 \<le> d \<Longrightarrow> d < D \<Longrightarrow> d ^ 4 < (D::real) ^ 4"
  by (rule power_strict_mono) simp_all

lemma section_modulus_pos:
  assumes "0 \<le> d" "d < D"
  shows "0 < pi / 64 * (D ^ 4 - d ^ 4) / (D / 2)"
proof -
  have "0 < D" using assms by simp
  moreover have "0 < D ^ 4 - d ^ 4" using pow4_strict_mono [OF assms] by simp
  ultimately show ?thesis by simp
qed


text \<open>
  \<open>compute_tube\<close> where no division raises: \<open>S\<close> is the section modulus and \<open>Mmm\<close>
  the root moment in N.mm.
\<close>

lemma tube_section_exact:
  assumes "float_pow4 D = Inr (D ^ 4)" and "float_pow4 d = Inr (d ^ 4)" and "D \<noteq> 0"
  shows "tube_section D d =
           Inr (pi / 64 * (D ^ 4 - d ^ 4), pi / 64 * (D ^ 4 - d ^ 4) / (D / 2))"
  using assms(3) by (simp add: tube_section_def assms(1,2) Let_def)

lemma compute_tube_unfold:
  assumes "D \<noteq> 0" and "S = pi / 64 * (D ^ 4 - d ^ 4) / (D / 2)"
    and "Mmm = m * 9.81 * n * s / 8 * 1000" and "S \<noteq> 0" and "Mmm / S \<noteq> 0"
    and "float_pow4 D = Inr (D ^ 4)" and "float_pow4 d = Inr (d ^ 4)"
  shows "compute_tube m s n D d allow = Inr (Mmm / S, allow / (Mmm / S))"
proof -
  have ts: "tube_section D d = Inr (pi / 64 * (D ^ 4 - d ^ 4), S)"
    unfolding assms(2) by (rule tube_section_exact [OF assms(6,7,1)])
  have rb: "root_bending_moment m s n g_default =
              (m * g_default, m * g_default * n, m * g_default * n * s / 8, Mmm)"
    by (simp add: root_bending_moment_def g_default_def Let_def assms(3))
  show ?thesis
    unfolding compute_tube_def rb ts using assms(4,5) by (simp add: Let_def)
qed

lemma compute_tube_eq:
  assumes M: "0 < m" "0 < s" "0 < n" and g: "0 \<le> d" "d < D"
    and pw: "float_pow4 D = Inr (D ^ 4)" "float_pow4 d = Inr (d ^ 4)"
  shows "compute_tube m s n D d allow =
      Inr ((m * 9.81 * n * s / 8 * 1000) / (pi / 64 * (D ^ 4 - d ^ 4) / (D / 2)),
           allow / ((m * 9.81 * n * s / 8 * 1000) / (pi / 64 * (D ^ 4 - d ^ 4) / (D / 2))))"
proof -
  define S where "S = pi / 64 * (D ^ 4 - d ^ 4) / (D / 2)"
  define Mmm where "Mmm = m * 9.81 * n * s / 8 * (1000::real)"
  have S: "0 < S" unfolding S_def by (rule section_modulus_pos [OF g])
  have Mmm: "0 < Mmm" unfolding Mmm_def using M by simp
  have D: "D \<noteq> 0" using g by simp
  have st: "Mmm / S \<noteq> 0" using S Mmm by simp
  have Sn: "S \<noteq> 0" using S by simp
  show ?thesis
    using compute_tube_unfold [OF D S_def Mmm_def Sn st pw] unfolding S_def Mmm_def .
qed

text \<open>The errors \<open>compute_tube\<close> can raise are those of the float operations.\<close>

lemma tube_section_error: "tube_section D d = Inl e \<Longrightarrow> e \<noteq> NoValidTubes"
  by (auto simp: tube_section_def float_pow4_def Let_def split: sum.splits if_splits)

lemma compute_tube_error: "compute_tube m s n D d allow = Inl e \<Longrightarrow> e \<noteq> NoValidTubes"
proof (cases "tube_section D d")
  case (Inl e')
  assume "compute_tube m s n D d allow = Inl e"
  then have "e = e'"
    by (simp add: compute_tube_def Inl split: prod.splits)
  then show ?thesis using tube_section_error [OF Inl] by simp
next
  case (Inr p)
  assume a: "compute_tube m s n D d allow = Inl e"
  obtain I S where p: "p = (I, S)" by (cases p)
  from a have "e = ZeroDivisionError"
    by (simp add: compute_tube_def Inr p Let_def split: prod.splits if_splits)
  then show ?thesis by simp
qed

section \<open>Auxiliary facts about the parser\<close>

text \<open>The loop only appends to \<open>tubes\<close>, so it can be run from the empty list.\<close>

lemma parse_line_append: "parse_line pf l acc = acc @ parse_line pf l []"
  by (simp add: parse_line_def Let_def split: option.splits)

lemma parse_loop_append: "parse_loop pf ls acc = acc @ parse_loop pf ls []"
proof (induction ls arbitrary: acc)
  case Nil
  show ?case by simp
next
  case (Cons l ls)
  have "parse_loop pf (l # ls) acc = parse_line pf l acc @ parse_loop pf ls []"
    using Cons.IH [of "parse_line pf l acc"] by simp
  also have "\<dots> = acc @ parse_line pf l [] @ parse_loop pf ls []"
    using parse_line_append [of pf l acc] by simp
  also have "\<dots> = acc @ parse_loop pf (l # ls) []"
    using Cons.IH [of "parse_line pf l []"] by simp
  finally show ?case .
qed

lemma parse_loop_concat: "parse_loop pf (xs @ ys) acc = parse_loop pf ys (parse_loop pf xs acc)"
  by (induction xs arbitrary: acc) simp_all

text \<open>Every pair the loop appends has passed the test \<open>d < D\<close>.\<close>

lemma parse_line_inner_less:
  "(D, d) \<in> set (parse_line pf l acc) \<Longrightarrow> (D, d) \<in> set acc \<or> d < D"
  by (auto simp: parse_line_def Let_def split: option.splits if_splits)

lemma parse_loop_inner_less:
  "(D, d) \<in> set (parse_loop pf ls acc) \<Longrightarrow> (D, d) \<in> set acc \<or> d < D"
proof (induction ls arbitrary: acc)
  case Nil
  then show ?case by simp
next
  case (Cons l ls)
  from Cons.prems have "(D, d) \<in> set (parse_loop pf ls (parse_line pf l acc))" by simp
  then have "(D, d) \<in> set (parse_line pf l acc) \<or> d < D" by (rule Cons.IH)
  then show ?case using parse_line_inner_less by blast
qed

text \<open>A line of two numbers with \<open>D \<le> d\<close> leaves \<open>tubes\<close> as it is.\<close>

lemma parse_line_rejects:
  assumes "str_split CHR '','' (remove_spaces bad) = [p0, p1]"
    and "pf p0 = Some D" and "pf p1 = Some d" and "D \<le> d"
  shows "parse_line pf bad acc = acc"
  using assms by (simp add: parse_line_def Let_def)

section \<open>Auxiliary facts about the results loop and the recommendation\<close>

lemma results_loop_step:
  assumes "results_loop m s n allow tsf ((D, d) # tubes) acc = Inr res"
  shows "\<exists>stress SF. compute_tube m s n D d allow = Inr (stress, SF) \<and>
           results_loop m s n allow tsf tubes
             (acc @ [\<lparr>Outer = D, Inner = d, Stress = stress, Safety_Factor = SF,
                       Pass = (SF \<ge> tsf)\<rparr>]) = Inr res"
proof (cases "compute_tube m s n D d allow")
  case (Inl e)
  then show ?thesis using assms by simp
next
  case (Inr p)
  obtain stress SF where p: "p = (stress, SF)" by (cases p)
  show ?thesis using assms by (simp add: Inr p)
qed

text \<open>A loop that ends normally has appended one evaluated row per tube, in order.\<close>

lemma results_loop_rows:
  "results_loop m s n allow tsf tubes acc = Inr res \<Longrightarrow>
   \<exists>rows. res = acc @ rows \<and> map row_tube rows = tubes \<and>
     (\<forall>r \<in> set rows. evaluated m s n allow tsf r)"
proof (induction tubes arbitrary: acc)
  case Nil
  then show ?case by simp
next
  case (Cons t tubes)
  obtain D d where t: "t = (D, d)" by (cases t)
  have "results_loop m s n allow tsf ((D, d) # tubes) acc = Inr res"
    using Cons.prems unfolding t .
  from results_loop_step [OF this] obtain stress SF where
    ct: "compute_tube m s n D d allow = Inr (stress, SF)" and
    rl: "results_loop m s n allow tsf tubes
             (acc @ [\<lparr>Outer = D, Inner = d, Stress = stress, Safety_Factor = SF,
                       Pass = (SF \<ge> tsf)\<rparr>]) = Inr res"
    by (elim exE conjE)
  define r0 where "r0 = \<lparr>Outer = D, Inner = d, Stress = stress, Safety_Factor = SF,
                         Pass = (SF \<ge> tsf)\<rparr>"
  have "results_loop m s n allow tsf tubes (acc @ [r0]) = Inr res"
    unfolding r0_def by (rule rl)
  from Cons.IH [OF this] obtain rows where
    rows: "res = (acc @ [r0]) @ rows" "map row_tube rows = tubes"
      "\<forall>r \<in> set rows. evaluated m s n allow tsf r"
    by (elim exE conjE)
  have r0: "evaluated m s n allow tsf r0"
    using ct by (simp add: r0_def evaluated_def)
  show ?case
  proof (intro exI conjI)
    show "res = acc @ (r0 # rows)" using rows(1) by simp
    show "map row_tube (r0 # rows) = t # tubes"
      using rows(2) by (simp add: row_tube_def r0_def t)
    show "\<forall>r \<in> set (r0 # rows). evaluated m s n allow tsf r"
      using rows(3) r0 by simp
  qed
qed

text \<open>On tubes with \<open>0 \<le> d < D\<close> and positive load inputs no division raises.\<close>

lemma results_loop_total:
  assumes M: "0 < m" "0 < s" "0 < n"
  shows "\<forall>(D, d) \<in> set tubes. 0 \<le> d \<and> d < D \<and>
           float_pow4 D = Inr (D ^ 4) \<and> float_pow4 d = Inr (d ^ 4) \<Longrightarrow>
         \<exists>res. results_loop m s n allow tsf tubes acc = Inr res"
proof (induction tubes arbitrary: acc)
  case Nil
  show ?case by simp
next
  case (Cons t tubes)
  obtain D d where t: "t = (D, d)" by (cases t)
  have g: "0 \<le> d" "d < D" and pw: "float_pow4 D = Inr (D ^ 4)" "float_pow4 d = Inr (d ^ 4)"
    using Cons.prems by (simp_all add: t)
  have tl: "\<forall>(D, d) \<in> set tubes. 0 \<le> d \<and> d < D \<and>
           float_pow4 D = Inr (D ^ 4) \<and> float_pow4 d = Inr (d ^ 4)"
    using Cons.prems by simp
  note ct = compute_tube_eq [OF M g pw, of allow]
  show ?case
    unfolding t results_loop.simps ct using Cons.IH [OF tl] by simp
qed

lemma results_loop_error:
  "results_loop m s n allow tsf tubes acc = Inl e \<Longrightarrow> e \<noteq> NoValidTubes"
proof (induction tubes arbitrary: acc)
  case Nil
  then show ?case by simp
next
  case (Cons t tubes)
  obtain D d where t: "t = (D, d)" by (cases t)
  show ?case
  proof (cases "compute_tube m s n D d allow")
    case (Inl e')
    then show ?thesis using Cons.prems compute_tube_error [OF Inl] by (simp add: t)
  next
    case (Inr p)
    then show ?thesis using Cons.prems Cons.IH by (cases p) (auto simp: t)
  qed
qed

lemma recommend_None: "recommend tbl = None \<longleftrightarrow> (\<forall>r \<in> set tbl. \<not> Pass r)"
proof -
  have "recommend tbl = None \<longleftrightarrow> filter (\<lambda>r. Pass r = True) tbl = []"
    by (simp add: recommend_def Let_def split: list.splits)
  then show ?thesis by (simp add: filter_empty_conv)
qed

lemma recommend_Some:
  assumes "recommend tbl = Some best"
  shows "\<exists>pre post. tbl = pre @ best # post \<and> (\<forall>r \<in> set pre. \<not> Pass r) \<and> Pass best"
proof -
  from assms obtain rest where "filter (\<lambda>r. Pass r = True) tbl = best # rest"
    by (auto simp: recommend_def Let_def split: list.splits)
  then show ?thesis
    by (auto simp: filter_eq_Cons_iff)
qed

lemma first_passing_least:
  assumes "sorted (map Outer tbl)" and "tbl = pre @ best # post"
    and "\<forall>r \<in> set pre. \<not> Pass r" and "r \<in> set tbl" and "Pass r"
  shows "Outer best \<le> Outer r"
proof -
  from assms(2,3,4,5) have "r = best \<or> r \<in> set post" by auto
  moreover have "\<forall>x \<in> set post. Outer best \<le> Outer x"
    using assms(1) unfolding assms(2) by (simp add: sorted_append)
  ultimately show ?thesis by auto
qed

text \<open>A lower bound on \<open>pi\<close>, from \<open>sin (pi/6) = 1/2\<close> and \<open>sin x \<le> x\<close>.\<close>

lemma pi_ge_three: "3 \<le> pi"
proof -
  have "sin (pi / 6) \<le> pi / 6" by (rule sin_x_le_x) simp
  then show ?thesis by (simp add: sin_30)
qed

text \<open>
  Facts on the float range: numbers of magnitude between \<open>10^-40\<close> and \<open>10^40\<close> are
  normal floats, and an evaluation in range has exact powers.
\<close>

lemma float_normal_bounds:
  assumes "1 / 10 ^ 40 \<le> \<bar>x\<bar>" and "\<bar>x\<bar> \<le> 10 ^ 40"
  shows "float_normal x"
proof -
  have "float_min \<le> (1::real) / 10 ^ 40" by (simp add: float_min_def)
  then show ?thesis
    using assms float_range_bounds(1) unfolding float_normal_def by linarith
qed

lemma tube_in_range_pows:
  assumes "tube_in_range m s n D d allow"
  shows "float_pow4 D = Inr (D ^ 4)" "float_pow4 d = Inr (d ^ 4)"
  using assms by (simp_all add: tube_in_range_def section_in_range_def float_normal_pow4)


text \<open>
  The default load inputs and the tubes used below are in range.
\<close>

lemma load_in_range_default: "load_in_range 5 2 3"
  unfolding load_in_range_def g_default_def
  by (intro conjI float_normal_bounds) simp_all

lemma section_in_range_8_6: "section_in_range 8 6"
  unfolding section_in_range_def
  using pi_ge_three pi_less_4 by (intro conjI float_normal_bounds) simp_all


lemma section_in_range_12_8: "section_in_range 12 8"
  unfolding section_in_range_def
  using pi_ge_three pi_less_4 by (intro conjI float_normal_bounds) simp_all

lemma tube_in_range_8_6: "tube_in_range 5 2 3 8 6 600"
  unfolding tube_in_range_def g_default_def
  using pi_ge_three pi_less_4 load_in_range_default section_in_range_8_6
  by (intro conjI float_normal_bounds) (simp_all add: field_simps)


lemma tube_in_range_12_8: "tube_in_range 5 2 3 12 8 600"
  unfolding tube_in_range_def g_default_def
  using pi_ge_three pi_less_4 load_in_range_default section_in_range_12_8
  by (intro conjI float_normal_bounds) (simp_all add: field_simps)

section \<open>The physics functions compute the documented formulas\<close>



text \<open>
  C2, as stated: for every geometry with \<open>D > d > 0\<close> the section-property computation
  returns \<open>I\<close> and \<open>S\<close>. For \<open>D = 10^80\<close> and \<open>d = 1\<close> the power \<open>D**4\<close> is too large
  for a float and the computation raises \<open>OverflowError\<close>.
\<close>

theorem tube_section_overflow_counterexample:
  "(0::real) < 1 \<and> (1::real) < 10 ^ 80 \<and> tube_section (10 ^ 80) 1 = Inl OverflowError"
  by (simp add: tube_section_def float_pow4_def float_max_def)

text \<open>
  C2, amended. For every geometry with \<open>D > d > 0\<close> on which no operation of the
  section-property computation leaves the range of the floats (\<open>section_in_range\<close>), the
  computation returns the moment of inertia \<open>I = pi/64 * (D^4 - d^4)\<close> and the section
  modulus \<open>S = I / (D/2)\<close>.
\<close>

theorem tube_section_formula:
  assumes "0 < d" and "d < D" and "section_in_range D d"
  shows "tube_section D d =
           Inr (pi / 64 * (D ^ 4 - d ^ 4), (pi / 64 * (D ^ 4 - d ^ 4)) / (D / 2))"
proof -
  have "float_normal (D ^ 4)" and "float_normal (d ^ 4)"
    using assms(3) by (simp_all add: section_in_range_def)
  then have pw: "float_pow4 D = Inr (D ^ 4)" "float_pow4 d = Inr (d ^ 4)"
    by (simp_all add: float_normal_pow4)
  have "D \<noteq> 0" using assms(1,2) by simp
  with pw show ?thesis by (rule tube_section_exact)
qed

theorem tube_section_formula_witness:
  "(0::real) < 8 \<and> (8::real) < 12 \<and> section_in_range 12 8 \<and>
   tube_section 12 8 = Inr (pi / 64 * 16640, (pi / 64 * 16640) / 6)"
  using tube_section_formula [of 8 12] section_in_range_12_8 by simp

text \<open>
  C3, as stated: for every valid input (positive scalars, \<open>D > d > 0\<close>) the evaluation of
  one candidate computes the stress and the safety factor. For \<open>D = 10^80\<close>, \<open>d = 1\<close> it
  raises \<open>OverflowError\<close>; for \<open>D = 2 * 10^-90\<close>, \<open>d = 10^-90\<close> both powers are
  \<open>0.0\<close>, the section modulus is \<open>0.0\<close> and \<open>Mmm / S\<close> raises \<open>ZeroDivisionError\<close>.
\<close>

theorem compute_tube_float_error_counterexample:
  "compute_tube 5 2 3 (10 ^ 80) 1 600 = Inl OverflowError \<and>
   compute_tube 5 2 3 (2 / 10 ^ 90) (1 / 10 ^ 90) 600 = Inl ZeroDivisionError"
proof -
  have a: "tube_section (10 ^ 80) 1 = Inl OverflowError"
    by (simp add: tube_section_def float_pow4_def float_max_def)
  have p1: "float_pow4 (2 / 10 ^ 90) = Inr 0"
    by (simp add: float_pow4_def float_max_def power_divide)
  have p2: "float_pow4 (1 / 10 ^ 90) = Inr 0"
    by (simp add: float_pow4_def float_max_def power_divide)
  have b: "tube_section (2 / 10 ^ 90) (1 / 10 ^ 90) = Inr (0, 0)"
    unfolding tube_section_def p1 p2 by (simp add: Let_def)
  show ?thesis
    unfolding compute_tube_def a b by (simp add: root_bending_moment_def Let_def)
qed

text \<open>
  C3, amended. For every valid input (positive mass, span, load factor and strength,
  \<open>D > d > 0\<close>) on which no operation of the evaluation leaves the range of the floats
  (\<open>tube_in_range\<close>), the evaluation of one candidate returns, with no error, the stress
  \<open>(M * 1000) / S\<close>, where \<open>M\<close> is the root moment in N.m of the load computation and
  \<open>S\<close> the section modulus in mm^3 of the section computation, and the safety factor
  \<open>strength / stress\<close>. The stress is in MPa: it is the stress in Pa got from the moment
  in N.m and the modulus in m^3 (\<open>S\<close> mm^3 are \<open>S / 10^9\<close> m^3), divided by \<open>10^6\<close>.
\<close>

theorem compute_tube_formula:
  assumes "0 < m" and "0 < s" and "0 < n" and "0 < allow" and "0 < d" and "d < D"
    and "tube_in_range m s n D d allow"
    and "root_bending_moment m s n g_default = (W, L, M, Mmm)"
    and "tube_section D d = Inr (I, S)"
  shows "compute_tube m s n D d allow = Inr (M * 1000 / S, allow / (M * 1000 / S)) \<and>
         M = m * 9.81 * n * s / 8 \<and> S = pi / 64 * (D ^ 4 - d ^ 4) / (D / 2) \<and>
         0 < M * 1000 / S \<and>
         M * 1000 / S = M / (S / 10 ^ 9) / 10 ^ 6"
proof -
  note pw = tube_in_range_pows [OF assms(7)]
  have rb: "root_bending_moment m s n g_default =
              (m * 9.81, m * 9.81 * n, m * 9.81 * n * s / 8, m * 9.81 * n * s / 8 * 1000)"
    by (simp add: root_bending_moment_def g_default_def Let_def)
  have "M = fst (snd (snd (root_bending_moment m s n g_default)))"
    by (simp add: assms(8))
  then have M: "M = m * 9.81 * n * s / 8"
    unfolding rb by simp
  have D0: "D \<noteq> 0" using assms(5,6) by simp
  note ts = tube_section_exact [OF pw D0]
  have "S = snd (projr (tube_section D d))"
    by (simp add: assms(9))
  then have S: "S = pi / 64 * (D ^ 4 - d ^ 4) / (D / 2)"
    unfolding ts by simp
  have d0: "0 \<le> d" using assms(5) by simp
  have Spos: "0 < S" unfolding S by (rule section_modulus_pos [OF d0 assms(6)])
  have Mpos: "0 < M * 1000" unfolding M using assms(1-3) by simp
  have ct: "compute_tube m s n D d allow = Inr (M * 1000 / S, allow / (M * 1000 / S))"
    unfolding M S by (rule compute_tube_eq [OF assms(1-3) d0 assms(6) pw])
  have pos: "0 < M * 1000 / S" by (rule divide_pos_pos [OF Mpos Spos])
  have units: "M * 1000 / S = M / (S / 10 ^ 9) / 10 ^ 6" by simp
  from ct M S pos units show ?thesis by blast
qed

theorem compute_tube_formula_witness:
  "tube_in_range 5 2 3 12 8 600 \<and>
   compute_tube 5 2 3 12 8 600 =
     Inr (36.7875 * 1000 / (pi / 64 * 16640 / 6), 600 / (36.7875 * 1000 / (pi / 64 * 16640 / 6)))"
proof -
  have ts: "tube_section 12 8 = Inr (pi / 64 * 16640, pi / 64 * 16640 / 6)"
    using tube_section_exact [of 12 8] by (simp add: float_pow4_small)
  have rb: "root_bending_moment 5 2 3 g_default = (49.05, 147.15, 36.7875, 36787.5)"
    by (simp add: root_bending_moment_def g_default_def Let_def)
  from compute_tube_formula [of 5 2 3 600 8 12 "49.05" "147.15" "36.7875" "36787.5"
      "pi / 64 * 16640" "pi / 64 * 16640 / 6", OF _ _ _ _ _ _ tube_in_range_12_8 rb ts]
  have "compute_tube 5 2 3 12 8 600 =
     Inr (36.7875 * 1000 / (pi / 64 * 16640 / 6), 600 / (36.7875 * 1000 / (pi / 64 * 16640 / 6)))"
    by simp
  with tube_in_range_12_8 show ?thesis by blast
qed

section \<open>Monotonicity in the outer diameter\<close>




section \<open>Auxiliary facts about the run\<close>

text \<open>
  A run that ends normally has parsed at least one tube, evaluated every tube and sorted
  the rows; conversely, when the loop ends normally the run does.
\<close>

lemma run_Inr:
  assumes "run srt pf inp = Inr rep"
  shows "\<exists>results. parse_candidates pf (tube_text inp) \<noteq> [] \<and>
           results_loop (mass inp) (wingspan inp) (g_load inp) (strength inp) (target_SF inp)
             (parse_candidates pf (tube_text inp)) [] = Inr results \<and>
           df rep = srt Outer results \<and> recommendation rep = recommend (srt Outer results)"
proof -
  define tubes where "tubes = parse_candidates pf (tube_text inp)"
  have ne: "tubes \<noteq> []"
    using assms unfolding run_def tubes_def [symmetric] by (auto simp: Let_def)
  show ?thesis
  proof (cases "results_loop (mass inp) (wingspan inp) (g_load inp) (strength inp)
                  (target_SF inp) tubes []")
    case (Inl e)
    then show ?thesis
      using assms ne unfolding run_def tubes_def [symmetric]
      by (simp add: Let_def split: prod.splits)
  next
    case (Inr results)
    have "rep = \<lparr>weight = fst (root_bending_moment (mass inp) (wingspan inp) (g_load inp) g_default),
                 lift = fst (snd (root_bending_moment (mass inp) (wingspan inp) (g_load inp) g_default)),
                 root_moment = fst (snd (snd (root_bending_moment (mass inp) (wingspan inp) (g_load inp) g_default))),
                 df = srt Outer results, recommendation = recommend (srt Outer results)\<rparr>"
      using assms ne Inr unfolding run_def tubes_def [symmetric]
      by (simp add: Let_def split: prod.splits)
    then have "df rep = srt Outer results" "recommendation rep = recommend (srt Outer results)"
      by simp_all
    then show ?thesis using ne Inr unfolding tubes_def by blast
  qed
qed

lemma run_Inr_intro:
  assumes "parse_candidates pf (tube_text inp) \<noteq> []"
    and "results_loop (mass inp) (wingspan inp) (g_load inp) (strength inp) (target_SF inp)
             (parse_candidates pf (tube_text inp)) [] = Inr results"
  shows "\<exists>rep. run srt pf inp = Inr rep"
  using assms unfolding run_def by (simp add: Let_def split: prod.splits)

text \<open>
  The table of a normal run, for any sort that meets \<open>sort_values_spec\<close>.
\<close>

lemma table_rows:
  assumes srt: "\<And>rows. sort_values_spec Outer rows (srt Outer rows)"
    and run: "run srt pf inp = Inr rep"
  shows "df rep \<noteq> [] \<and> sorted (map Outer (df rep)) \<and>
         mset (map row_tube (df rep)) = mset (parse_candidates pf (tube_text inp)) \<and>
         (\<forall>r \<in> set (df rep).
            evaluated (mass inp) (wingspan inp) (g_load inp) (strength inp) (target_SF inp) r) \<and>
         recommendation rep = recommend (df rep)"
proof -
  from run_Inr [OF run] obtain results where
    ne: "parse_candidates pf (tube_text inp) \<noteq> []" and
    rl: "results_loop (mass inp) (wingspan inp) (g_load inp) (strength inp) (target_SF inp)
             (parse_candidates pf (tube_text inp)) [] = Inr results" and
    df: "df rep = srt Outer results" and
    rc: "recommendation rep = recommend (srt Outer results)"
    by (elim exE conjE)
  from results_loop_rows [OF rl] obtain rows where
    rows: "results = [] @ rows" "map row_tube rows = parse_candidates pf (tube_text inp)"
      "\<forall>r \<in> set rows.
         evaluated (mass inp) (wingspan inp) (g_load inp) (strength inp) (target_SF inp) r"
    by (elim exE conjE)
  have res: "results = rows" using rows(1) by simp
  have ms: "mset (df rep) = mset rows" and so: "sorted (map Outer (df rep))"
    using srt [of results] unfolding df res sort_values_spec_def by simp_all
  have "mset (map row_tube (df rep)) = mset (map row_tube rows)"
    using ms by (metis mset_map)
  then have a: "mset (map row_tube (df rep)) = mset (parse_candidates pf (tube_text inp))"
    using rows(2) by simp
  have "set (df rep) = set rows" using ms by (rule mset_eq_setD)
  then have b: "\<forall>r \<in> set (df rep).
         evaluated (mass inp) (wingspan inp) (g_load inp) (strength inp) (target_SF inp) r"
    using rows(3) by simp
  have "rows \<noteq> []" using rows(2) ne by auto
  then have c: "df rep \<noteq> []" using ms by auto
  have d: "recommendation rep = recommend (df rep)" using rc df by simp
  from c so a b d show ?thesis by blast
qed

lemma sort_values_stable_spec: "sort_values_spec key rows (sort_values_stable key rows)"
  by (simp add: sort_values_spec_def sort_values_stable_def)

text \<open>
  The run on the default inputs of the sidebar, with the stable sort. The flags need
  \<open>3 \<le> pi < 4\<close>: the tube 12 x 8 passes with a safety factor of about 2.22, the tube
  10 x 8 fails with about 0.95.
\<close>

lemma parse_text_default:
  "parse_candidates float_lit text_default = [(8, 6), (10, 8), (12, 8), (14, 10), (16, 12), (18, 14)]"
  by code_simp

lemma run_default:
  "\<exists>rep. run sort_values_stable float_lit default_inputs = Inr rep \<and>
     map row_tube (df rep) = [(8, 6), (10, 8), (12, 8), (14, 10), (16, 12), (18, 14)] \<and>
     map Pass (df rep) = [False, False, True, True, True, True] \<and>
     map_option row_tube (recommendation rep) = Some (12, 8)"
  using pi_ge_three pi_less_4
  by (simp add: run_def default_inputs_def parse_text_default Let_def
      root_bending_moment_def g_default_def compute_tube_eq float_pow4_small
      sort_values_stable_def recommend_def row_tube_def field_simps)

lemma parse_aborting_entry:
  "parse_candidates float_lit ''8,-8\<newline>6,8\<newline>12,8'' = [(8, - 8), (12, 8)]"
  by code_simp

lemma parse_negative_inner: "parse_candidates float_lit ''5,-7'' = [(5, - 7)]"
  by code_simp

lemma parse_no_number: "parse_candidates float_lit ''abc'' = []"
  by code_simp

section \<open>Ranking and recommendation\<close>

text \<open>
  C4. For every run that reaches the table (so with at least one candidate), and for any
  sort that orders the rows by outer diameter: the table is not empty and ascending in the
  outer diameter, the flag \<open>Pass\<close> of a row says that its safety factor is at least
  the target, the recommendation is absent exactly when no row passes, and a
  recommendation \<open>best\<close> is the first passing row of the table: no row before it
  passes, it passes, and its outer diameter is the least among the rows whose safety
  factor reaches the target.
\<close>

theorem recommendation_first_passing:
  assumes srt: "\<And>rows. sort_values_spec Outer rows (srt Outer rows)"
    and run: "run srt pf inp = Inr rep"
  shows "df rep \<noteq> [] \<and> sorted (map Outer (df rep)) \<and>
         (\<forall>r \<in> set (df rep). Pass r = (target_SF inp \<le> Safety_Factor r)) \<and>
         ((recommendation rep = None) = (\<forall>r \<in> set (df rep). \<not> Pass r)) \<and>
         (\<forall>best. recommendation rep = Some best \<longrightarrow>
            (\<exists>pre post. df rep = pre @ best # post \<and> (\<forall>r \<in> set pre. \<not> Pass r)) \<and>
            Pass best \<and>
            (\<forall>r \<in> set (df rep). target_SF inp \<le> Safety_Factor r \<longrightarrow> Outer best \<le> Outer r))"
proof -
  note t = table_rows [OF srt run]
  have ne: "df rep \<noteq> []" and so: "sorted (map Outer (df rep))"
    and rc: "recommendation rep = recommend (df rep)"
    using t by simp_all
  have ev: "\<forall>r \<in> set (df rep).
         evaluated (mass inp) (wingspan inp) (g_load inp) (strength inp) (target_SF inp) r"
    using t by blast
  have pass: "\<forall>r \<in> set (df rep). Pass r = (target_SF inp \<le> Safety_Factor r)"
    using ev unfolding evaluated_def by blast
  have none: "(recommendation rep = None) = (\<forall>r \<in> set (df rep). \<not> Pass r)"
    unfolding rc by (rule recommend_None)
  have some: "(\<exists>pre post. df rep = pre @ best # post \<and> (\<forall>r \<in> set pre. \<not> Pass r)) \<and>
            Pass best \<and>
            (\<forall>r \<in> set (df rep). target_SF inp \<le> Safety_Factor r \<longrightarrow> Outer best \<le> Outer r)"
    if b: "recommendation rep = Some best" for best
  proof -
    from b have "recommend (df rep) = Some best" unfolding rc .
    from recommend_Some [OF this] obtain pre post where
      sp: "df rep = pre @ best # post" and np: "\<forall>r \<in> set pre. \<not> Pass r" and pb: "Pass best"
      by (elim exE conjE)
    have least: "Outer best \<le> Outer r" if "r \<in> set (df rep)" "target_SF inp \<le> Safety_Factor r" for r
    proof -
      have "Pass r" using pass that by blast
      with so sp np that(1) show ?thesis by (rule first_passing_least)
    qed
    from sp np pb least show ?thesis by blast
  qed
  from ne so pass none some show ?thesis by blast
qed

theorem recommendation_first_passing_witness:
  "\<exists>rep. run sort_values_stable float_lit default_inputs = Inr rep \<and>
     map row_tube (df rep) = [(8, 6), (10, 8), (12, 8), (14, 10), (16, 12), (18, 14)] \<and>
     map Pass (df rep) = [False, False, True, True, True, True] \<and>
     map_option row_tube (recommendation rep) = Some (12, 8) \<and>
     sorted (map Outer (df rep)) \<and>
     (\<forall>r \<in> set (df rep). Pass r = (2 \<le> Safety_Factor r))"
proof -
  from run_default obtain rep where
    run: "run sort_values_stable float_lit default_inputs = Inr rep" and
    tubes: "map row_tube (df rep) = [(8, 6), (10, 8), (12, 8), (14, 10), (16, 12), (18, 14)]" and
    flags: "map Pass (df rep) = [False, False, True, True, True, True]" and
    best: "map_option row_tube (recommendation rep) = Some (12, 8)"
    by (elim exE conjE)
  note th = recommendation_first_passing [of sort_values_stable float_lit default_inputs rep,
      OF sort_values_stable_spec run]
  from th have so: "sorted (map Outer (df rep))"
    by (elim conjE)
  from th have "\<forall>r \<in> set (df rep). Pass r = (target_SF default_inputs \<le> Safety_Factor r)"
    by (elim conjE)
  moreover have "target_SF default_inputs = 2" by (simp add: default_inputs_def)
  ultimately have pass: "\<forall>r \<in> set (df rep). Pass r = (2 \<le> Safety_Factor r)"
    by (simp only:)
  show ?thesis
  proof (intro exI conjI)
    show "run sort_values_stable float_lit default_inputs = Inr rep" by (rule run)
    show "map row_tube (df rep) = [(8, 6), (10, 8), (12, 8), (14, 10), (16, 12), (18, 14)]"
      by (rule tubes)
    show "map Pass (df rep) = [False, False, True, True, True, True]" by (rule flags)
    show "map_option row_tube (recommendation rep) = Some (12, 8)" by (rule best)
    show "sorted (map Outer (df rep))" by (rule so)
    show "\<forall>r \<in> set (df rep). Pass r = (2 \<le> Safety_Factor r)" by (rule pass)
  qed
qed

section \<open>Rejected candidates and errors\<close>

text \<open>
  C7, as stated: when a list holds an entry with inner diameter at least the outer one, that
  entry is rejected and all remaining valid candidates are still evaluated; one bad entry
  never aborts the whole list. The evaluation loop catches no exception: in the list
  \<open>8,-8\<close>, \<open>6,8\<close>, \<open>12,8\<close> the parser rejects \<open>6,8\<close> and keeps \<open>8,-8\<close>, whose
  section modulus is zero, and the run ends with \<open>ZeroDivisionError\<close> before the valid
  candidate \<open>12,8\<close> is evaluated.
\<close>

theorem aborting_entry_counterexample:
  "parse_candidates float_lit ''8,-8\<newline>6,8\<newline>12,8'' = [(8, - 8), (12, 8)] \<and>
   run sort_values_stable float_lit
     \<lparr>mass = 5, wingspan = 2, g_load = 3, strength = 600, target_SF = 2,
      tube_text = ''8,-8\<newline>6,8\<newline>12,8''\<rparr> = Inl ZeroDivisionError"
proof -
  have ts: "tube_section 8 (- 8) = Inr (0, 0)"
    using tube_section_exact [of 8 "- 8"] by (simp add: float_pow4_small)
  have ct: "compute_tube 5 2 3 8 (- 8) 600 = Inl ZeroDivisionError"
    unfolding compute_tube_def ts by (simp add: root_bending_moment_def Let_def)
  have "run sort_values_stable float_lit
     \<lparr>mass = 5, wingspan = 2, g_load = 3, strength = 600, target_SF = 2,
      tube_text = ''8,-8\<newline>6,8\<newline>12,8''\<rparr> = Inl ZeroDivisionError"
    by (simp add: run_def parse_aborting_entry ct Let_def root_bending_moment_def)
  with parse_aborting_entry show ?thesis by blast
qed

text \<open>
  C7, amended. When a line of the text holds two numbers with inner diameter \<open>d\<close> at least
  the outer diameter \<open>D\<close>, the parser drops that line and returns the tubes of the other
  lines, as if the line were not there. If every one of those tubes is valid (positive
  inner diameter; the parser has checked \<open>d < D\<close>) and is evaluated within the range of
  the floats, there is at least one and the load inputs are positive, the run ends
  normally and its table holds one evaluated row for each of them and no row for the
  rejected candidate. (A remaining tube whose evaluation raises aborts the run.)
\<close>

theorem bad_entry_rejected_rest_evaluated:
  assumes srt: "\<And>rows. sort_values_spec Outer rows (srt Outer rows)"
    and pos: "0 < mass inp" "0 < wingspan inp" "0 < g_load inp"
    and lines: "text_lines (tube_text inp) = xs @ bad # ys"
    and parts: "str_split CHR '','' (remove_spaces bad) = [p0, p1]"
    and nums: "pf p0 = Some D" "pf p1 = Some d"
    and bad: "D \<le> d"
    and rest: "parse_loop pf (xs @ ys) [] \<noteq> []"
    and valid: "\<forall>(D', d') \<in> set (parse_loop pf (xs @ ys) []).
                  0 < d' \<and> tube_in_range (mass inp) (wingspan inp) (g_load inp) D' d' (strength inp)"
  shows "parse_candidates pf (tube_text inp) = parse_loop pf (xs @ ys) [] \<and>
         (\<exists>rep. run srt pf inp = Inr rep \<and>
            mset (map row_tube (df rep)) = mset (parse_loop pf (xs @ ys) []) \<and>
            (D, d) \<notin> set (map row_tube (df rep)) \<and>
            (\<forall>r \<in> set (df rep).
               evaluated (mass inp) (wingspan inp) (g_load inp) (strength inp) (target_SF inp) r))"
proof -
  have skip: "parse_line pf bad acc = acc" for acc
    by (rule parse_line_rejects [OF parts nums bad])
  have "parse_loop pf (xs @ bad # ys) [] = parse_loop pf (bad # ys) (parse_loop pf xs [])"
    by (rule parse_loop_concat)
  also have "\<dots> = parse_loop pf ys (parse_loop pf xs [])"
    by (simp add: skip)
  also have "\<dots> = parse_loop pf (xs @ ys) []"
    by (rule parse_loop_concat [symmetric])
  finally have pc: "parse_candidates pf (tube_text inp) = parse_loop pf (xs @ ys) []"
    by (simp add: parse_candidates_def lines)
  have less: "d' < D'" if "(D', d') \<in> set (parse_loop pf (xs @ ys) [])" for D' d'
    using parse_loop_inner_less [OF that] by simp
  have ok: "\<forall>(D', d') \<in> set (parse_loop pf (xs @ ys) []). 0 \<le> d' \<and> d' < D' \<and>
              float_pow4 D' = Inr (D' ^ 4) \<and> float_pow4 d' = Inr (d' ^ 4)"
  proof (intro ballI, clarify)
    fix D' d' assume m: "(D', d') \<in> set (parse_loop pf (xs @ ys) [])"
    from valid m have v: "0 < d'"
      "tube_in_range (mass inp) (wingspan inp) (g_load inp) D' d' (strength inp)"
      by auto
    from v(1) less [OF m] tube_in_range_pows [OF v(2)]
    show "0 \<le> d' \<and> d' < D' \<and> float_pow4 D' = Inr (D' ^ 4) \<and> float_pow4 d' = Inr (d' ^ 4)"
      by simp
  qed
  from results_loop_total [OF pos ok] obtain results where
    rl: "results_loop (mass inp) (wingspan inp) (g_load inp) (strength inp) (target_SF inp)
           (parse_loop pf (xs @ ys) []) [] = Inr results"
    by blast
  have "\<exists>rep. run srt pf inp = Inr rep"
    by (rule run_Inr_intro [of pf inp results]) (simp_all add: pc rest rl)
  then obtain rep where run: "run srt pf inp = Inr rep" ..
  note t = table_rows [OF srt run]
  have ms: "mset (map row_tube (df rep)) = mset (parse_loop pf (xs @ ys) [])"
    using t pc by simp
  have ev: "\<forall>r \<in> set (df rep).
               evaluated (mass inp) (wingspan inp) (g_load inp) (strength inp) (target_SF inp) r"
    using t by blast
  have "set (map row_tube (df rep)) = set (parse_loop pf (xs @ ys) [])"
    using ms by (rule mset_eq_setD)
  moreover have "(D, d) \<notin> set (parse_loop pf (xs @ ys) [])"
    using less [of D d] bad by auto
  ultimately have out: "(D, d) \<notin> set (map row_tube (df rep))" by simp
  from pc run ms out ev show ?thesis by blast
qed

theorem bad_entry_rejected_rest_evaluated_witness:
  "parse_candidates float_lit ''8,6\<newline>6,8\<newline>12,8'' = [(8, 6), (12, 8)] \<and>
   tube_in_range 5 2 3 8 6 600 \<and> tube_in_range 5 2 3 12 8 600 \<and>
   (\<exists>rep. run sort_values_stable float_lit
            \<lparr>mass = 5, wingspan = 2, g_load = 3, strength = 600, target_SF = 2,
             tube_text = ''8,6\<newline>6,8\<newline>12,8''\<rparr> = Inr rep \<and>
          mset (map row_tube (df rep)) = mset [(8, 6), (12, 8)] \<and>
          (6, 8) \<notin> set (map row_tube (df rep)))"
proof -
  define inp where "inp = \<lparr>mass = 5, wingspan = 2, g_load = 3, strength = 600, target_SF = 2,
             tube_text = ''8,6\<newline>6,8\<newline>12,8''\<rparr>"
  have l: "text_lines ''8,6\<newline>6,8\<newline>12,8'' = [''8,6''] @ ''6,8'' # [''12,8'']"
    by code_simp
  have lines: "text_lines (tube_text inp) = [''8,6''] @ ''6,8'' # [''12,8'']"
    unfolding inp_def using l by simp
  have parts: "str_split CHR '','' (remove_spaces ''6,8'') = [''6'', ''8'']" by code_simp
  have n0: "float_lit ''6'' = Some 6" by code_simp
  have n1: "float_lit ''8'' = Some 8" by code_simp
  have rest: "parse_loop float_lit ([''8,6''] @ [''12,8'']) [] = [(8, 6), (12, 8)]"
    by code_simp
  have pos: "0 < mass inp" "0 < wingspan inp" "0 < g_load inp" by (simp_all add: inp_def)
  have ne: "parse_loop float_lit ([''8,6''] @ [''12,8'']) [] \<noteq> []"
    unfolding rest by simp
  have valid: "\<forall>(D', d') \<in> set (parse_loop float_lit ([''8,6''] @ [''12,8'']) []).
      0 < d' \<and> tube_in_range (mass inp) (wingspan inp) (g_load inp) D' d' (strength inp)"
    unfolding rest using tube_in_range_8_6 tube_in_range_12_8 by (simp add: inp_def)
  have bad: "(6::real) \<le> 8" by simp
  note th = bad_entry_rejected_rest_evaluated [of sort_values_stable inp "[''8,6'']" "''6,8''"
      "[''12,8'']" "''6''" "''8''" float_lit 6 8,
      OF sort_values_stable_spec pos lines parts n0 n1 bad ne valid]
  from th have pc: "parse_candidates float_lit (tube_text inp) = [(8, 6), (12, 8)]"
    unfolding rest by (rule conjunct1)
  from th obtain rep where
    r: "run sort_values_stable float_lit inp = Inr rep"
      "mset (map row_tube (df rep)) = mset (parse_loop float_lit ([''8,6''] @ [''12,8'']) [])"
      "(6, 8) \<notin> set (map row_tube (df rep))"
    by (elim exE conjE)
  have a: "parse_candidates float_lit ''8,6\<newline>6,8\<newline>12,8'' = [(8, 6), (12, 8)]"
    using pc by (simp add: inp_def)
  have b: "mset (map row_tube (df rep)) = mset [(8, 6), (12, 8)]"
    using r(2) unfolding rest .
  from a tube_in_range_8_6 tube_in_range_12_8 r(1) [unfolded inp_def] b r(3)
  show ?thesis by blast
qed




text \<open>
  C9, as stated: every pair produced by the parser has both diameters strictly positive
  and the inner one strictly less than the outer one. The parser tests \<open>d < D\<close> only:
  the line \<open>5,-7\<close> gives the pair \<open>(5, -7)\<close>.
\<close>

theorem parsed_positive_counterexample:
  "(5, - 7) \<in> set (parse_candidates float_lit ''5,-7'') \<and> \<not> (0::real) < - 7"
  by (simp add: parse_negative_inner)

text \<open>
  C9, amended. For every text and every \<open>float\<close>, every pair \<open>(D, d)\<close> produced by
  the parser has \<open>d < D\<close>. The signs of the diameters are not checked.
\<close>

theorem parsed_inner_less_outer:
  assumes "(D, d) \<in> set (parse_candidates pf text)"
  shows "d < D"
  using parse_loop_inner_less [of D d pf "text_lines text" "[]"] assms
  by (simp add: parse_candidates_def)

theorem parsed_inner_less_outer_witness:
  "(12, 8) \<in> set (parse_candidates float_lit text_default) \<and> (8::real) < 12"
proof -
  have "(12, 8) \<in> set (parse_candidates float_lit text_default)"
    by (simp add: parse_text_default)
  with parsed_inner_less_outer [of 12 8 float_lit text_default] show ?thesis by blast
qed

text \<open>
  C10. The run fails with the error of the empty-list guard (the message
  \<open>No valid tubes!\<close> followed by \<open>st.stop()\<close>) exactly when the parser returns no
  tube; the result is then the error alone, with no table and no recommendation.
\<close>

theorem no_tubes_stops:
  "(run srt pf inp = Inl NoValidTubes) = (parse_candidates pf (tube_text inp) = [])"
proof (cases "parse_candidates pf (tube_text inp) = []")
  case True
  then show ?thesis by (simp add: run_def)
next
  case False
  have "run srt pf inp \<noteq> Inl NoValidTubes"
  proof (cases "results_loop (mass inp) (wingspan inp) (g_load inp) (strength inp)
                  (target_SF inp) (parse_candidates pf (tube_text inp)) []")
    case (Inl e)
    then have "e \<noteq> NoValidTubes" by (rule results_loop_error)
    then show ?thesis using False Inl by (simp add: run_def Let_def split: prod.splits)
  next
    case (Inr results)
    then show ?thesis using False by (simp add: run_def Let_def split: prod.splits)
  qed
  then show ?thesis using False by simp
qed

theorem no_tubes_stops_witness:
  "run sort_values_stable float_lit
     \<lparr>mass = 5, wingspan = 2, g_load = 3, strength = 600, target_SF = 2,
      tube_text = ''abc''\<rparr> = Inl NoValidTubes"
  using no_tubes_stops [of sort_values_stable float_lit
     "\<lparr>mass = 5, wingspan = 2, g_load = 3, strength = 600, target_SF = 2,
      tube_text = ''abc''\<rparr>"]
  by (simp add: parse_no_number)

end
